theory Spec2Isabelle
  imports Main "HOL-Library.Sublist"
begin

section \<open>Strings, lines and the timestamp pattern\<close>

text \<open>
  A Python \<open>str\<close> is modelled as a \<open>string\<close> (a list of characters). The functions of
  this section are the library operations that \<open>streamlit_app.py\<close> applies to strings:
  \<open>s.split("\n")\<close>, \<open>sep.join(xs)\<close>, \<open>name.endswith(".txt")\<close> and \<open>pattern.match(line)\<close>.
\<close>

definition newline :: char where
  "newline = CHR 0x0A"

text \<open>
  \<open>s.split(sep)\<close> for a one-character separator: the pieces between the occurrences of
  the separator, empty pieces included, so the result is never the empty list
  (\<open>"".split("\n")\<close> is \<open>[""]\<close> and \<open>"a\n".split("\n")\<close> is \<open>["a", ""]\<close>).
\<close>

fun str_split :: "char \<Rightarrow> string \<Rightarrow> string list" where
  "str_split sep [] = [[]]"
| "str_split sep (c # cs) =
     (if c = sep then [] # str_split sep cs
      else (case str_split sep cs of
              [] \<Rightarrow> [[c]]
            | l # ls \<Rightarrow> (c # l) # ls))"

text \<open>\<open>sep.join(xs)\<close>: the separator between consecutive elements only.\<close>

fun str_join :: "string \<Rightarrow> string list \<Rightarrow> string" where
  "str_join sep [] = []"
| "str_join sep [x] = x"
| "str_join sep (x # y # ys) = x @ sep @ str_join sep (y # ys)"

definition endswith :: "string \<Rightarrow> string \<Rightarrow> bool" where
  "endswith s suf = (length suf \<le> length s \<and> drop (length s - length suf) s = suf)"

text \<open>
  The regular expression of \<open>remove_timestamps\<close> is a sequence of single-character
  atoms: \<open>\d\<close> and literal characters (\<open>\d{2}\<close> is two atoms \<open>\d\<close>). The class \<open>\d\<close> is
  read on the decimal digits \<open>0\<close> to \<open>9\<close>; the decimal digits of other scripts, which
  Python's \<open>\d\<close> accepts too, are not characters of this model.
\<close>

definition is_digit :: "char \<Rightarrow> bool" where
  "is_digit c = (c \<in> set ''0123456789'')"

datatype atom = Digit | Lit char

text \<open>
  \<open>pattern.match(line)\<close>: the pattern has to match at the first character of the line;
  nothing is required of what follows the match.
\<close>

fun re_match :: "atom list \<Rightarrow> string \<Rightarrow> bool" where
  "re_match [] s = True"
| "re_match (a # as) [] = False"
| "re_match (Digit # as) (c # cs) = (is_digit c \<and> re_match as cs)"
| "re_match (Lit x # as) (c # cs) = (c = x \<and> re_match as cs)"

text \<open>The whole of a string matches the pattern (Python's \<open>fullmatch\<close>).\<close>

definition re_fullmatch :: "atom list \<Rightarrow> string \<Rightarrow> bool" where
  "re_fullmatch p s = (re_match p s \<and> length s = length p)"

text \<open>\<open>\d{2}:\d{2}:\d{2},\d{3}\<close>\<close>

definition clock_pattern :: "atom list" where
  "clock_pattern =
     [Digit, Digit, Lit CHR '':'', Digit, Digit, Lit CHR '':'', Digit, Digit, Lit CHR '','',
      Digit, Digit, Digit]"

text \<open>\<open>\d{2}:\d{2}:\d{2},\d{3} --> \d{2}:\d{2}:\d{2},\d{3}\<close>\<close>

definition timestamp_pattern :: "atom list" where
  "timestamp_pattern = clock_pattern @ map Lit '' --> '' @ clock_pattern"

text \<open>
  \<open>remove_timestamps\<close>: the lines of the text, the comprehension that keeps the lines on
  which the pattern does not match, and the join of the kept lines.
\<close>

definition filtered_lines :: "string \<Rightarrow> string list" where
  "filtered_lines srt_text =
     filter (\<lambda>line. \<not> re_match timestamp_pattern line) (str_split newline srt_text)"

definition remove_timestamps :: "string \<Rightarrow> string" where
  "remove_timestamps srt_text = str_join [newline] (filtered_lines srt_text)"

section \<open>Exceptions, collaborators and what the program prints\<close>

text \<open>
  Exceptions are values. \<open>Library name\<close> is an exception raised inside an external
  library (the scraper, the transcript API) or by the operating system on \<open>unlink\<close>; the
  others are the ones the modelled code can raise by itself.
\<close>

datatype exn =
    Library string
  | ZeroDivisionError
  | FileNotFoundError
  | IsADirectoryError
  | NotADirectoryError

text \<open>
  The records of the two collaborators. Only the field the program reads is kept:
  \<open>video["videoId"]\<close> and \<open>item["text"]\<close>.
\<close>

record video =
  videoId :: string

record caption =
  item_text :: string

text \<open>
  A collaborator is a call into the outside world \<open>'w\<close>: it returns its result, or the
  exception it raises, and the world after the call.
\<close>

type_synonym ('w, 'a) call = "'w \<Rightarrow> (exn + 'a) \<times> 'w"

text \<open>The messages of \<open>print\<close> and of the \<open>st.*\<close> calls, in the order they are issued.\<close>

datatype event =
    Failed_to_download string exn
  | No_English_transcript string
  | Error_deleting string exn
  | All_transcript_files_cleared
  | Transcript_folder_does_not_exist
  | Please_enter_a_channel_URL
  | Found_videos nat
  | Progress_bar_created
  | Progress_bar nat nat
  | Processing_video nat nat
  | Combining_transcripts
  | All_transcripts_combined string
  | Download_button string string

definition get_transcript_text ::
  "(string \<Rightarrow> ('w, caption list) call) \<Rightarrow> string \<Rightarrow> ('w, string) call" where
  "get_transcript_text get_transcript video_id w =
     (case get_transcript video_id w of
        (Inl e, w') \<Rightarrow> (Inl e, w')
      | (Inr transcript, w') \<Rightarrow> (Inr (str_join '' '' (map item_text transcript)), w'))"

definition get_all_video_ids ::
  "(string \<Rightarrow> ('w, video list) call) \<Rightarrow> string \<Rightarrow> ('w, string list) call" where
  "get_all_video_ids get_channel channel_url w =
     (case get_channel channel_url w of
        (Inl e, w') \<Rightarrow> (Inl e, w')
      | (Inr videos, w') \<Rightarrow> (Inr (map videoId videos), w'))"

section \<open>The file system\<close>

text \<open>
  An entry of the output directory is a regular file with the characters stored in it,
  or something for which \<open>os.path.isfile\<close> is false (a subdirectory). A directory is
  the list of its entries in the order of \<open>os.listdir\<close>. The path of the output
  directory names a directory, nothing at all, or a regular file.
\<close>

datatype node = File string | Subdir

type_synonym directory = "(string \<times> node) list"

datatype folder = Missing | Regular_file | Folder directory

definition listdir :: "directory \<Rightarrow> string list" where
  "listdir d = map fst d"

definition isfile :: "directory \<Rightarrow> string \<Rightarrow> bool" where
  "isfile d filename = (case map_of d filename of Some (File c) \<Rightarrow> True | _ \<Rightarrow> False)"

definition remove_entry :: "string \<Rightarrow> directory \<Rightarrow> directory" where
  "remove_entry filename d = filter (\<lambda>entry. fst entry \<noteq> filename) d"

text \<open>
  The state of the files the program touches: the output directory, and the regular
  files elsewhere by their path. A path leads to an entry of the output directory, to
  a file elsewhere, or to something that cannot be opened (a directory, a path below a
  missing directory, a name the system refuses).
\<close>

record fsys =
  output_dir :: folder
  outside :: "string \<rightharpoonup> string"

datatype location = In_output_dir string | Outside string | Unopenable exn

text \<open>
  What the operating system decides, and the program does not:
  \<^item> \<open>os_place d name\<close>: the position at which \<open>os.listdir\<close> shows a name newly created
    in the directory \<open>d\<close>;
  \<^item> \<open>os_read_text name stored\<close>: what \<open>read()\<close> returns for a regular file opened in text
    mode with \<open>encoding="utf-8"\<close>, from its name and the characters stored in it: the
    decoded text with its line ends translated, or the exception raised (no
    permission, bytes that are not UTF-8);
  \<^item> \<open>os_join name\<close>: where the path \<open>os.path.join(output_dir, name)\<close> leads, for a name
    the program has built (the entry \<open>name\<close> of the output directory when \<open>name\<close> is
    a plain file name; elsewhere, or nowhere, when it holds a path separator);
  \<^item> \<open>os_resolve path\<close>: where a path typed by the user leads;
  \<^item> \<open>os_flushed written\<close>: the part of the text written to a buffered file that has
    reached the disk before the file is closed.
\<close>

record os =
  os_place :: "directory \<Rightarrow> string \<Rightarrow> nat"
  os_read_text :: "string \<Rightarrow> string \<Rightarrow> exn + string"
  os_join :: "string \<Rightarrow> location"
  os_resolve :: "string \<Rightarrow> location"
  os_flushed :: "string \<Rightarrow> string"

text \<open>
  \<open>open(path, "w")\<close> followed by one \<open>write\<close>, for a path that leads to the entry
  \<open>filename\<close> of a directory: an existing regular file is replaced in place, a new name
  appears in the listing at the position \<open>k\<close>, and a name that is not a regular file
  cannot be opened. The text is stored as it is written.
\<close>

definition write_entry :: "nat \<Rightarrow> string \<Rightarrow> string \<Rightarrow> directory \<Rightarrow> exn + directory" where
  "write_entry k filename content d =
     (case map_of d filename of
        None \<Rightarrow> Inr (take k d @ [(filename, File content)] @ drop k d)
      | Some (File old) \<Rightarrow>
          Inr (map (\<lambda>entry. if fst entry = filename then (filename, File content) else entry) d)
      | Some Subdir \<Rightarrow> Inl IsADirectoryError)"

definition write_in_folder :: "os \<Rightarrow> string \<Rightarrow> string \<Rightarrow> folder \<Rightarrow> exn + folder" where
  "write_in_folder sys filename content folder =
     (case folder of
        Missing \<Rightarrow> Inl FileNotFoundError
      | Regular_file \<Rightarrow> Inl NotADirectoryError
      | Folder d \<Rightarrow>
          (case write_entry (os_place sys d filename) filename content d of
             Inl e \<Rightarrow> Inl e
           | Inr d' \<Rightarrow> Inr (Folder d')))"

definition write_at :: "os \<Rightarrow> location \<Rightarrow> string \<Rightarrow> fsys \<Rightarrow> exn + fsys" where
  "write_at sys path content fs =
     (case path of
        Unopenable e \<Rightarrow> Inl e
      | Outside p \<Rightarrow> Inr (fs\<lparr>outside := (outside fs)(p \<mapsto> content)\<rparr>)
      | In_output_dir filename \<Rightarrow>
          (case write_in_folder sys filename content (output_dir fs) of
             Inl e \<Rightarrow> Inl e
           | Inr folder' \<Rightarrow> Inr (fs\<lparr>output_dir := folder'\<rparr>)))"

text \<open>
  \<open>open(os.path.join(dir, name), "r", encoding="utf-8")\<close> followed by \<open>read()\<close>, for a
  name taken from the listing of the directory.
\<close>

definition read_entry :: "os \<Rightarrow> directory \<Rightarrow> string \<Rightarrow> exn + string" where
  "read_entry sys d filename =
     (case map_of d filename of
        None \<Rightarrow> Inl FileNotFoundError
      | Some (File stored) \<Rightarrow> os_read_text sys filename stored
      | Some Subdir \<Rightarrow> Inl IsADirectoryError)"

text \<open>\<open>open(path, "r", encoding="utf-8")\<close> followed by \<open>read()\<close>.\<close>

definition read_at :: "os \<Rightarrow> location \<Rightarrow> fsys \<Rightarrow> exn + string" where
  "read_at sys path fs =
     (case path of
        Unopenable e \<Rightarrow> Inl e
      | Outside p \<Rightarrow>
          (case outside fs p of
             None \<Rightarrow> Inl FileNotFoundError
           | Some stored \<Rightarrow> os_read_text sys p stored)
      | In_output_dir filename \<Rightarrow>
          (case output_dir fs of
             Missing \<Rightarrow> Inl FileNotFoundError
           | Regular_file \<Rightarrow> Inl NotADirectoryError
           | Folder d \<Rightarrow> read_entry sys d filename))"

text \<open>The characters stored in the regular file a path leads to, if it leads to one.\<close>

definition stored_at :: "location \<Rightarrow> fsys \<Rightarrow> string option" where
  "stored_at path fs =
     (case path of
        Unopenable e \<Rightarrow> None
      | Outside p \<Rightarrow> outside fs p
      | In_output_dir filename \<Rightarrow>
          (case output_dir fs of
             Folder d \<Rightarrow> (case map_of d filename of Some (File stored) \<Rightarrow> Some stored | _ \<Rightarrow> None)
           | _ \<Rightarrow> None))"

section \<open>The steps of the pipeline\<close>

definition download_transcript ::
  "os \<Rightarrow> (string \<Rightarrow> ('w, caption list) call) \<Rightarrow> string \<Rightarrow> fsys \<Rightarrow> 'w \<Rightarrow>
     (bool \<times> fsys \<times> event list) \<times> 'w" where
  "download_transcript sys get_transcript video_id fs w =
     (case get_transcript_text get_transcript video_id w of
        (Inl e, w') \<Rightarrow> ((False, fs, [Failed_to_download video_id e]), w')
      | (Inr transcript, w') \<Rightarrow>
          if transcript \<noteq> [] then
            (let cleaned_text = remove_timestamps transcript
             in case write_at sys (os_join sys (video_id @ ''.txt'')) cleaned_text fs of
                  Inl e \<Rightarrow> ((False, fs, [Failed_to_download video_id e]), w')
                | Inr fs' \<Rightarrow> ((True, fs', []), w'))
          else ((False, fs, [No_English_transcript video_id]), w'))"

text \<open>
  \<open>concatenate_transcripts\<close>. The final file is opened for writing before the directory
  is listed, so it is created or emptied first. The loop reads every entry whose name
  ends in \<open>.txt\<close> and appends its text and two newlines to what has been written. When
  the final file is itself an entry of the directory, reading it gives what has
  reached the disk of the text written so far. Closing the final file leaves the whole
  written text in it.
\<close>

fun concatenate_loop ::
  "os \<Rightarrow> location \<Rightarrow> directory \<Rightarrow> string list \<Rightarrow> string \<Rightarrow> exn + string" where
  "concatenate_loop sys final_file d [] written = Inr written"
| "concatenate_loop sys final_file d (filename # rest) written =
     (if endswith filename ''.txt'' then
        (case (if final_file = In_output_dir filename
               then os_read_text sys filename (os_flushed sys written)
               else read_entry sys d filename) of
           Inl e \<Rightarrow> Inl e
         | Inr content \<Rightarrow>
             concatenate_loop sys final_file d rest (written @ content @ [newline, newline]))
      else concatenate_loop sys final_file d rest written)"

definition close_final :: "os \<Rightarrow> location \<Rightarrow> string \<Rightarrow> fsys \<Rightarrow> fsys" where
  "close_final sys final_file written fs =
     (case write_at sys final_file written fs of
        Inl e \<Rightarrow> fs
      | Inr fs' \<Rightarrow> fs')"

definition concatenate_transcripts :: "os \<Rightarrow> location \<Rightarrow> fsys \<Rightarrow> exn + fsys" where
  "concatenate_transcripts sys final_file fs =
     (case write_at sys final_file [] fs of
        Inl e \<Rightarrow> Inl e
      | Inr fs' \<Rightarrow>
          (case output_dir fs' of
             Missing \<Rightarrow> Inl FileNotFoundError
           | Regular_file \<Rightarrow> Inl NotADirectoryError
           | Folder d \<Rightarrow>
               (case concatenate_loop sys final_file d (listdir d) [] of
                  Inl e \<Rightarrow> Inl e
                | Inr written \<Rightarrow> Inr (close_final sys final_file written fs'))))"

text \<open>
  \<open>clear_transcript_folder\<close>. \<open>unlink filename\<close> is \<open>None\<close> when \<open>os.unlink\<close> of that
  entry succeeds and the exception it raises otherwise. The directory is listed once;
  the body of the loop runs for each listed name on the directory as it then is.
\<close>

fun clear_loop ::
  "(string \<Rightarrow> exn option) \<Rightarrow> string list \<Rightarrow> directory \<Rightarrow> event list \<Rightarrow> directory \<times> event list" where
  "clear_loop unlink [] d out = (d, out)"
| "clear_loop unlink (filename # rest) d out =
     (if isfile d filename then
        (case unlink filename of
           None \<Rightarrow> clear_loop unlink rest (remove_entry filename d) out
         | Some e \<Rightarrow> clear_loop unlink rest d (out @ [Error_deleting filename e]))
      else clear_loop unlink rest d out)"

definition clear_transcript_folder ::
  "(string \<Rightarrow> exn option) \<Rightarrow> folder \<Rightarrow> exn + folder \<times> event list" where
  "clear_transcript_folder unlink folder_path =
     (case folder_path of
        Missing \<Rightarrow> Inr (Missing, [Transcript_folder_does_not_exist])
      | Regular_file \<Rightarrow> Inl NotADirectoryError
      | Folder d \<Rightarrow>
          (case clear_loop unlink (listdir d) d [] of
             (d', out) \<Rightarrow> Inr (Folder d', out @ [All_transcript_files_cleared])))"

section \<open>The run started by the Download button\<close>

text \<open>
  What a run depends on besides the two text inputs and the files: the two
  collaborators, the outcome of \<open>os.unlink\<close> for each name, the exception that
  \<open>os.makedirs\<close> raises if it raises one, and the operating system.
\<close>

record 'w env =
  scrapetube_get_channel :: "string \<Rightarrow> ('w, video list) call"
  api_get_transcript :: "string \<Rightarrow> ('w, caption list) call"
  os_unlink :: "string \<Rightarrow> exn option"
  os_makedirs :: "exn option"
  system :: os

text \<open>
  The loop over \<open>enumerate(video_ids, 1)\<close>. \<open>int((i / total_videos) * 100)\<close> divides by
  \<open>total_videos\<close>; the value only moves the progress bar, and the model records the
  two numbers it is computed from.
\<close>

fun process_videos ::
  "'w env \<Rightarrow> nat \<Rightarrow> nat \<Rightarrow> string list \<Rightarrow> fsys \<Rightarrow> event list \<Rightarrow> 'w \<Rightarrow>
     (exn + fsys \<times> event list) \<times> 'w" where
  "process_videos env total_videos i [] fs out w = (Inr (fs, out), w)"
| "process_videos env total_videos i (video_id # rest) fs out w =
     (if total_videos = 0 then (Inl ZeroDivisionError, w)
      else
        (case download_transcript (system env) (api_get_transcript env) video_id fs w of
           ((ok, fs', printed), w') \<Rightarrow>
             process_videos env total_videos (i + 1) rest fs'
               (out @ [Progress_bar i total_videos, Processing_video i total_videos] @ printed) w'))"

text \<open>
  The body of \<open>main\<close> under \<open>if st.button("Download")\<close>, up to the download button for
  the combined file. The upload to the cloud storage that follows is behind a checkbox
  and is not part of the model.
\<close>

definition main_download ::
  "'w env \<Rightarrow> string \<Rightarrow> string \<Rightarrow> fsys \<Rightarrow> 'w \<Rightarrow> (exn + fsys \<times> event list) \<times> 'w" where
  "main_download env channel_url name fs w =
     (if channel_url = [] then (Inr (fs, [Please_enter_a_channel_URL]), w)
      else
        (let final_file = (if name = [] then ''combined_transcripts.txt'' else name @ ''.txt'')
         in case (if output_dir fs = Missing
                  then (case os_makedirs env of
                          None \<Rightarrow> Inr (fs\<lparr>output_dir := Folder []\<rparr>)
                        | Some e \<Rightarrow> Inl e)
                  else Inr fs) of
              Inl e \<Rightarrow> (Inl e, w)
            | Inr fs1 \<Rightarrow>
            (case clear_transcript_folder (os_unlink env) (output_dir fs1) of
              Inl e \<Rightarrow> (Inl e, w)
            | Inr (folder2, out2) \<Rightarrow>
                (case get_all_video_ids (scrapetube_get_channel env) channel_url w of
                   (Inl e, w') \<Rightarrow> (Inl e, w')
                 | (Inr video_ids, w') \<Rightarrow>
                     (case process_videos env (length video_ids) 1 video_ids
                             (fs1\<lparr>output_dir := folder2\<rparr>)
                             (out2 @ [Found_videos (length video_ids), Progress_bar_created]) w' of
                        (Inl e, w'') \<Rightarrow> (Inl e, w'')
                      | (Inr (fs3, out3), w'') \<Rightarrow>
                          (case concatenate_transcripts (system env)
                                  (os_resolve (system env) final_file) fs3 of
                             Inl e \<Rightarrow> (Inl e, w'')
                           | Inr fs4 \<Rightarrow>
                               (case read_at (system env) (os_resolve (system env) final_file) fs4 of
                                  Inl e \<Rightarrow> (Inl e, w'')
                                | Inr data \<Rightarrow>
                                    (Inr (fs4, out3 @ [Combining_transcripts,
                                            All_transcripts_combined final_file,
                                            Download_button data final_file]), w''))))))))"

section \<open>The combined text, as the specification words it\<close>

text \<open>
  The regular files of a directory whose name ends in \<open>.txt\<close>, with what they store, in
  the order of the listing; and the text made of the text read from each of them
  followed by two newlines.
\<close>

fun txt_files :: "directory \<Rightarrow> (string \<times> string) list" where
  "txt_files [] = []"
| "txt_files ((filename, File content) # d) =
     (if endswith filename ''.txt'' then (filename, content) # txt_files d else txt_files d)"
| "txt_files ((filename, Subdir) # d) = txt_files d"

definition text_of :: "os \<Rightarrow> string \<times> string \<Rightarrow> string" where
  "text_of sys file = (case os_read_text sys (fst file) (snd file) of Inl e \<Rightarrow> [] | Inr t \<Rightarrow> t)"

definition combined_text :: "os \<Rightarrow> directory \<Rightarrow> string" where
  "combined_text sys d = concat (map (\<lambda>file. text_of sys file @ [newline, newline]) (txt_files d))"

section \<open>Example collaborators\<close>

text \<open>
  Collaborators for the worked examples. The world is the number of calls made so far.
  The transcript API has captions for \<open>a1\<close>, an empty caption list for \<open>e0\<close>, and
  raises for every other identifier; the scraper lists \<open>a1\<close> and \<open>a2\<close> for one channel,
  nothing for another, and raises otherwise.
\<close>

definition example_get_transcript :: "string \<Rightarrow> (nat, caption list) call" where
  "example_get_transcript video_id w =
     (if video_id = ''a1'' then
        (Inr [\<lparr>item_text = ''intro\<newline>00:00:01,000 --> 00:00:02,500''\<rparr>,
              \<lparr>item_text = ''tail\<newline>next''\<rparr>], Suc w)
      else if video_id = ''e0'' then (Inr [], Suc w)
      else (Inl (Library ''TranscriptsDisabled''), Suc w))"

definition example_get_channel :: "string \<Rightarrow> (nat, video list) call" where
  "example_get_channel channel_url w =
     (if channel_url = ''youtube.com/@two'' then
        (Inr [\<lparr>videoId = ''a1''\<rparr>, \<lparr>videoId = ''a2''\<rparr>], Suc w)
      else if channel_url = ''youtube.com/@none'' then (Inr [], Suc w)
      else (Inl (Library ''HTTPError''), Suc w))"

text \<open>
  Outcomes of \<open>os.unlink\<close>: every deletion succeeds, or the deletion of \<open>b.txt\<close> is
  refused. An operating system for plain ASCII files: a new name is listed last, a
  file is read as it is stored but for \<open>\r\n\<close> and \<open>\r\<close>, which are read as \<open>\n\<close>, a
  name without a slash is an entry of the output directory, a typed path leads outside
  the output directory unless it begins with \<open>transcripts/\<close>, and nothing is flushed
  before a file is closed.
\<close>

definition unlink_ok :: "string \<Rightarrow> exn option" where
  "unlink_ok filename = None"

definition unlink_refused :: "string \<Rightarrow> exn option" where
  "unlink_refused filename =
     (if filename = ''b.txt'' then Some (Library ''PermissionError'') else None)"

definition place_last :: "directory \<Rightarrow> string \<Rightarrow> nat" where
  "place_last d filename = length d"

fun universal_newlines :: "string \<Rightarrow> string" where
  "universal_newlines [] = []"
| "universal_newlines [c] = (if c = CHR 0x0D then [newline] else [c])"
| "universal_newlines (c # c' # cs) =
     (if c = CHR 0x0D \<and> c' = newline then newline # universal_newlines cs
      else if c = CHR 0x0D then newline # universal_newlines (c' # cs)
      else c # universal_newlines (c' # cs))"

definition example_read :: "string \<Rightarrow> string \<Rightarrow> exn + string" where
  "example_read filename stored = Inr (universal_newlines stored)"

definition example_join :: "string \<Rightarrow> location" where
  "example_join filename =
     (if CHR ''/'' \<in> set filename then Unopenable FileNotFoundError else In_output_dir filename)"

definition example_resolve :: "string \<Rightarrow> location" where
  "example_resolve path =
     (if take 12 path = ''transcripts/'' then In_output_dir (drop 12 path) else Outside path)"

definition no_flush :: "string \<Rightarrow> string" where
  "no_flush written = []"

definition example_os :: os where
  "example_os =
     \<lparr>os_place = place_last,
      os_read_text = example_read,
      os_join = example_join,
      os_resolve = example_resolve,
      os_flushed = no_flush\<rparr>"

definition example_dir :: directory where
  "example_dir =
     [(''a.txt'', File ''old''), (''b.txt'', File ''x''), (''sub'', Subdir),
      (''notes.md'', File ''n''), (''c.txt'', File ''new'')]"

definition example_fs :: fsys where
  "example_fs =
     \<lparr>output_dir = Folder example_dir,
      outside = [''combined_transcripts.txt'' \<mapsto> ''previous run'']\<rparr>"

definition aliased_fs :: fsys where
  "aliased_fs = \<lparr>output_dir = Folder [(''all.txt'', File ''old'')], outside = Map.empty\<rparr>"

definition empty_fs :: fsys where
  "empty_fs = \<lparr>output_dir = Folder [], outside = Map.empty\<rparr>"


definition example_env :: "(string \<Rightarrow> exn option) \<Rightarrow> nat env" where
  "example_env unlink =
     \<lparr>scrapetube_get_channel = example_get_channel,
      api_get_transcript = example_get_transcript,
      os_unlink = unlink,
      os_makedirs = None,
      system = example_os\<rparr>"

section \<open>Lines of a string\<close>

lemma str_split_not_Nil: "str_split sep s \<noteq> []"
  by (induction s) (auto split: list.splits)

lemma str_split_length_pos: "0 < length (str_split sep s)"
  using str_split_not_Nil [of sep s] by simp

lemma str_split_no_sep: "l \<in> set (str_split sep s) \<Longrightarrow> sep \<notin> set l"
proof (induction s arbitrary: l)
  case Nil
  then show ?case by simp
next
  case (Cons c cs)
  show ?case
  proof (cases "c = sep")
    case True
    with Cons show ?thesis by auto
  next
    case False
    obtain k ks where ks: "str_split sep cs = k # ks"
      using str_split_not_Nil [of sep cs] by (cases "str_split sep cs") auto
    with False Cons.prems have "l = c # k \<or> l \<in> set ks" by auto
    then show ?thesis
    proof
      assume "l = c # k"
      moreover have "sep \<notin> set k" using Cons.IH [of k] ks by simp
      ultimately show ?thesis using False by auto
    next
      assume "l \<in> set ks"
      then show ?thesis using Cons.IH [of l] ks by simp
    qed
  qed
qed

lemma str_split_single: "sep \<notin> set l \<Longrightarrow> str_split sep l = [l]"
  by (induction l) auto

lemma str_split_append:
  "sep \<notin> set l \<Longrightarrow> str_split sep (l @ sep # s) = l # str_split sep s"
  by (induction l) auto

lemma str_split_join:
  "ls \<noteq> [] \<Longrightarrow> \<forall>l\<in>set ls. sep \<notin> set l \<Longrightarrow> str_split sep (str_join [sep] ls) = ls"
proof (induction ls)
  case Nil
  then show ?case by simp
next
  case (Cons x xs)
  show ?case
  proof (cases xs)
    case Nil
    with Cons.prems show ?thesis by (simp add: str_split_single)
  next
    case (Cons y ys)
    with Cons.prems Cons.IH show ?thesis by (simp add: str_split_append)
  qed
qed

lemma str_join_split: "str_join [sep] (str_split sep s) = s"
proof (induction s)
  case Nil
  then show ?case by simp
next
  case (Cons c cs)
  obtain k ks where ks: "str_split sep cs = k # ks"
    using str_split_not_Nil [of sep cs] by (cases "str_split sep cs") auto
  show ?case
  proof (cases "c = sep")
    case True
    with Cons ks show ?thesis by simp
  next
    case False
    with Cons ks show ?thesis by (cases ks) auto
  qed
qed

section \<open>The timestamp pattern and \<open>remove_timestamps\<close>\<close>

lemma re_match_length: "re_match p s \<Longrightarrow> length p \<le> length s"
  by (induction p s rule: re_match.induct) auto

lemma re_match_append: "re_match p s \<Longrightarrow> re_match p (s @ t)"
  by (induction p s rule: re_match.induct) auto

lemma re_match_take: "re_match p s \<Longrightarrow> re_match p (take (length p) s)"
  by (induction p s rule: re_match.induct) auto

lemma re_match_iff_prefix:
  "re_match p l \<longleftrightarrow> (\<exists>ts rest. l = ts @ rest \<and> re_fullmatch p ts)"
proof
  assume m: "re_match p l"
  have "l = take (length p) l @ drop (length p) l" by simp
  moreover have "re_fullmatch p (take (length p) l)"
    using m re_match_take [OF m] re_match_length [OF m] by (simp add: re_fullmatch_def)
  ultimately show "\<exists>ts rest. l = ts @ rest \<and> re_fullmatch p ts" by blast
next
  assume "\<exists>ts rest. l = ts @ rest \<and> re_fullmatch p ts"
  then show "re_match p l" by (auto simp: re_fullmatch_def re_match_append)
qed

lemma empty_line_kept: "\<not> re_match timestamp_pattern []"
  by (simp add: timestamp_pattern_def clock_pattern_def)

lemma filtered_lines_no_newline: "l \<in> set (filtered_lines s) \<Longrightarrow> newline \<notin> set l"
  by (auto simp: filtered_lines_def dest: str_split_no_sep)

lemma split_remove_timestamps:
  "str_split newline (remove_timestamps s) =
     (if filtered_lines s = [] then [[]] else filtered_lines s)"
  by (auto simp: remove_timestamps_def str_split_join filtered_lines_no_newline)

lemma filtered_lines_remove_timestamps:
  "filtered_lines (remove_timestamps s) = (if filtered_lines s = [] then [[]] else filtered_lines s)"
proof -
  have "filter (\<lambda>line. \<not> re_match timestamp_pattern line) (filtered_lines s) = filtered_lines s"
    by (simp add: filtered_lines_def)
  then show ?thesis
    unfolding filtered_lines_def [of "remove_timestamps s"] split_remove_timestamps
    by (simp add: empty_line_kept)
qed

text \<open>
  C4. \<open>remove_timestamps\<close> is idempotent: cleaning a cleaned text changes nothing, for
  every input string.
\<close>

theorem remove_timestamps_idempotent:
  "remove_timestamps (remove_timestamps s) = remove_timestamps s"
  by (simp add: remove_timestamps_def [of "remove_timestamps s"] filtered_lines_remove_timestamps)
     (simp add: remove_timestamps_def)

text \<open>
  C3. \<open>remove_timestamps\<close> is a filter on the lines of its input: the result is the join
  of the kept lines, which are a subsequence of the input's lines (so in their original
  order); no kept line, and no line of the result, matches the timestamp pattern; when
  a line is kept the lines of the result are exactly the kept lines; and the result has
  at most as many lines as the input. (When every line is dropped the result is the
  empty string, whose single line is empty.)
\<close>

theorem remove_timestamps_pure_filter:
  "remove_timestamps s = str_join [newline] (filtered_lines s)
   \<and> subseq (filtered_lines s) (str_split newline s)
   \<and> (\<forall>line \<in> set (filtered_lines s). \<not> re_match timestamp_pattern line)
   \<and> (\<forall>line \<in> set (str_split newline (remove_timestamps s)). \<not> re_match timestamp_pattern line)
   \<and> (filtered_lines s \<noteq> [] \<longrightarrow> str_split newline (remove_timestamps s) = filtered_lines s)
   \<and> length (str_split newline (remove_timestamps s)) \<le> length (str_split newline s)"
proof -
  have a: "\<forall>line \<in> set (filtered_lines s). \<not> re_match timestamp_pattern line"
    by (simp add: filtered_lines_def)
  have b: "subseq (filtered_lines s) (str_split newline s)"
    by (simp add: filtered_lines_def)
  have c: "length (filtered_lines s) \<le> length (str_split newline s)"
    by (simp add: filtered_lines_def)
  have d: "Suc 0 \<le> length (str_split newline s)"
    using str_split_length_pos [of newline s] by arith
  have e: "\<forall>line \<in> set (str_split newline (remove_timestamps s)). \<not> re_match timestamp_pattern line"
    using a by (simp add: split_remove_timestamps empty_line_kept)
  have f: "filtered_lines s \<noteq> [] \<longrightarrow> str_split newline (remove_timestamps s) = filtered_lines s"
    by (simp add: split_remove_timestamps)
  have g: "length (str_split newline (remove_timestamps s)) \<le> length (str_split newline s)"
    using c d by (simp add: split_remove_timestamps)
  have h: "remove_timestamps s = str_join [newline] (filtered_lines s)"
    by (simp add: remove_timestamps_def)
  from h b a e f g show ?thesis by (intro conjI)
qed

lemma filtered_lines_example: "filtered_lines ''intro\<newline>00:00:01,000 --> 00:00:02,500\<newline>hello'' = [''intro'', ''hello'']"
  by code_simp

lemma str_split_example: "str_split newline ''intro\<newline>00:00:01,000 --> 00:00:02,500\<newline>hello'' = [''intro'', ''00:00:01,000 --> 00:00:02,500'', ''hello'']"
  by code_simp

theorem remove_timestamps_pure_filter_witness:
  "filtered_lines ''intro\<newline>00:00:01,000 --> 00:00:02,500\<newline>hello'' \<noteq> []
   \<and> str_split newline (remove_timestamps ''intro\<newline>00:00:01,000 --> 00:00:02,500\<newline>hello'')
       = [''intro'', ''hello'']
   \<and> subseq [''intro'', ''hello''] [''intro'', ''00:00:01,000 --> 00:00:02,500'', ''hello'']
   \<and> \<not> re_match timestamp_pattern ''intro'' \<and> \<not> re_match timestamp_pattern ''hello''"
proof -
  note t = remove_timestamps_pure_filter
    [of "''intro\<newline>00:00:01,000 --> 00:00:02,500\<newline>hello''", unfolded filtered_lines_example str_split_example]
  have k: "[''intro'', ''hello''] \<noteq> []" by simp
  from t have s: "subseq [''intro'', ''hello''] [''intro'', ''00:00:01,000 --> 00:00:02,500'', ''hello'']"
    by (elim conjE)
  from t have "[''intro'', ''hello''] \<noteq> [] \<longrightarrow>
      str_split newline (remove_timestamps ''intro\<newline>00:00:01,000 --> 00:00:02,500\<newline>hello'')
       = [''intro'', ''hello'']"
    by (elim conjE)
  with k have l: "str_split newline (remove_timestamps ''intro\<newline>00:00:01,000 --> 00:00:02,500\<newline>hello'')
       = [''intro'', ''hello'']" by (rule rev_mp)
  have m1: "\<not> re_match timestamp_pattern ''intro''" by code_simp
  have m2: "\<not> re_match timestamp_pattern ''hello''" by code_simp
  from k l s m1 m2 show ?thesis unfolding filtered_lines_example by (intro conjI)
qed

text \<open>
  C10. \<open>remove_timestamps\<close> drops a line exactly when it begins with a timestamp: its
  result is the join of the lines of the input that have no prefix matching the whole
  pattern. So a timestamp followed by arbitrary text is never a line of the result,
  and a line of the input that does not begin with a timestamp is a line of the
  result, whatever it contains further on.
\<close>

theorem remove_timestamps_anchored_at_line_start:
  "remove_timestamps s =
     str_join [newline]
       (filter (\<lambda>line. \<not> (\<exists>ts rest. line = ts @ rest \<and> re_fullmatch timestamp_pattern ts))
          (str_split newline s))
   \<and> filtered_lines s =
     filter (\<lambda>line. \<not> (\<exists>ts rest. line = ts @ rest \<and> re_fullmatch timestamp_pattern ts))
       (str_split newline s)
   \<and> (re_fullmatch timestamp_pattern ts \<longrightarrow>
        ts @ rest \<notin> set (str_split newline (remove_timestamps s)))
   \<and> (line \<in> set (str_split newline s)
        \<and> \<not> (\<exists>ts rest. line = ts @ rest \<and> re_fullmatch timestamp_pattern ts)
      \<longrightarrow> line \<in> set (str_split newline (remove_timestamps s)))"
proof -
  have eq: "(\<lambda>line. \<not> re_match timestamp_pattern line) =
        (\<lambda>line. \<not> (\<exists>ts rest. line = ts @ rest \<and> re_fullmatch timestamp_pattern ts))"
    by (simp add: re_match_iff_prefix)
  have a: "filtered_lines s =
     filter (\<lambda>line. \<not> (\<exists>ts rest. line = ts @ rest \<and> re_fullmatch timestamp_pattern ts))
       (str_split newline s)"
    unfolding filtered_lines_def eq ..
  have r: "remove_timestamps s =
     str_join [newline]
       (filter (\<lambda>line. \<not> (\<exists>ts rest. line = ts @ rest \<and> re_fullmatch timestamp_pattern ts))
          (str_split newline s))"
    unfolding remove_timestamps_def a ..
  have b: "ts @ rest \<notin> set (str_split newline (remove_timestamps s))"
    if f: "re_fullmatch timestamp_pattern ts"
  proof -
    from f have m: "re_match timestamp_pattern (ts @ rest)"
      by (simp add: re_fullmatch_def re_match_append)
    then have "ts @ rest \<notin> set (filtered_lines s)"
      by (simp add: filtered_lines_def)
    moreover from m have "ts @ rest \<noteq> []"
      using empty_line_kept by auto
    ultimately show ?thesis
      unfolding split_remove_timestamps by simp
  qed
  have c: "line \<in> set (str_split newline (remove_timestamps s))"
    if l: "line \<in> set (str_split newline s)"
      and n: "\<not> (\<exists>ts rest. line = ts @ rest \<and> re_fullmatch timestamp_pattern ts)"
  proof -
    from l n have "line \<in> set (filtered_lines s)"
      unfolding a by simp
    then show ?thesis
      unfolding split_remove_timestamps by auto
  qed
  from r a b c show ?thesis by blast
qed


lemma timestamp_fullmatch_example: "re_fullmatch timestamp_pattern ''00:00:01,000 --> 00:00:02,500''"
  by code_simp

lemma late_timestamp_example: "\<not> re_match timestamp_pattern ''>> 00:00:01,000 --> 00:00:02,500''"
  by code_simp

lemma str_split_late_example: "str_split newline ''00:00:01,000 --> 00:00:02,500 and more\<newline>>> 00:00:01,000 --> 00:00:02,500''
   = [''00:00:01,000 --> 00:00:02,500 and more'', ''>> 00:00:01,000 --> 00:00:02,500'']"
  by code_simp

lemma cleaned_late_example:
  "str_join [newline] (filter (\<lambda>line. \<not> re_match timestamp_pattern line)
      (str_split newline
        ''00:00:01,000 --> 00:00:02,500 and more\<newline>>> 00:00:01,000 --> 00:00:02,500''))
     = ''>> 00:00:01,000 --> 00:00:02,500''"
  by code_simp

theorem remove_timestamps_anchored_at_line_start_witness:
  "re_fullmatch timestamp_pattern ''00:00:01,000 --> 00:00:02,500''
   \<and> ''00:00:01,000 --> 00:00:02,500 and more'' \<notin> set (str_split newline (remove_timestamps
        ''00:00:01,000 --> 00:00:02,500 and more\<newline>>> 00:00:01,000 --> 00:00:02,500''))
   \<and> ''>> 00:00:01,000 --> 00:00:02,500'' \<in> set (str_split newline
        ''00:00:01,000 --> 00:00:02,500 and more\<newline>>> 00:00:01,000 --> 00:00:02,500'')
   \<and> \<not> re_match timestamp_pattern ''>> 00:00:01,000 --> 00:00:02,500''
   \<and> ''>> 00:00:01,000 --> 00:00:02,500'' \<in> set (str_split newline (remove_timestamps
        ''00:00:01,000 --> 00:00:02,500 and more\<newline>>> 00:00:01,000 --> 00:00:02,500''))
   \<and> remove_timestamps
        ''00:00:01,000 --> 00:00:02,500 and more\<newline>>> 00:00:01,000 --> 00:00:02,500''
       = ''>> 00:00:01,000 --> 00:00:02,500''"
proof -
  have n: "\<not> (\<exists>ts rest. ''>> 00:00:01,000 --> 00:00:02,500'' = ts @ rest
              \<and> re_fullmatch timestamp_pattern ts)"
    using late_timestamp_example unfolding re_match_iff_prefix .
  have m: "''>> 00:00:01,000 --> 00:00:02,500'' \<in> set (str_split newline
        ''00:00:01,000 --> 00:00:02,500 and more\<newline>>> 00:00:01,000 --> 00:00:02,500'')"
    unfolding str_split_late_example by simp
  have a: "''00:00:01,000 --> 00:00:02,500'' @ '' and more'' = ''00:00:01,000 --> 00:00:02,500 and more''"
    by simp
  note t = remove_timestamps_anchored_at_line_start
    [of "''00:00:01,000 --> 00:00:02,500 and more\<newline>>> 00:00:01,000 --> 00:00:02,500''"
        "''00:00:01,000 --> 00:00:02,500''" "'' and more''" "''>> 00:00:01,000 --> 00:00:02,500''",
     unfolded a]
  note r = t [THEN conjunct1, unfolded re_match_iff_prefix [symmetric] cleaned_late_example]
  note b = t [THEN conjunct2, THEN conjunct2, THEN conjunct1, THEN mp, OF timestamp_fullmatch_example]
  from m n have mn: "''>> 00:00:01,000 --> 00:00:02,500'' \<in> set (str_split newline
        ''00:00:01,000 --> 00:00:02,500 and more\<newline>>> 00:00:01,000 --> 00:00:02,500'')
      \<and> \<not> (\<exists>ts rest. ''>> 00:00:01,000 --> 00:00:02,500'' = ts @ rest
              \<and> re_fullmatch timestamp_pattern ts)"
    by (intro conjI)
  note c = t [THEN conjunct2, THEN conjunct2, THEN conjunct2, THEN mp, OF mn]
  from timestamp_fullmatch_example b m late_timestamp_example c r show ?thesis by (intro conjI)
qed

section \<open>\<open>download_transcript\<close>\<close>

lemma map_of_replace_entry:
  "map_of (map (\<lambda>entry. if fst entry = filename then (filename, v) else entry) d) x =
     (if x = filename \<and> map_of d filename \<noteq> None then Some v else map_of d x)"
  by (induction d) auto

lemma map_of_insert_entry:
  "map_of (a @ b) filename = None \<Longrightarrow>
   map_of (a @ [(filename, v)] @ b) = (map_of (a @ b))(filename \<mapsto> v)"
  by (auto simp: fun_eq_iff map_add_def split: option.splits)

lemma map_of_write_entry:
  assumes "write_entry k filename content d = Inr d'"
  shows "map_of d' = (map_of d)(filename \<mapsto> File content)"
proof (cases "map_of d filename")
  case None
  with assms have d': "d' = take k d @ [(filename, File content)] @ drop k d"
    by (simp add: write_entry_def)
  from None have "map_of (take k d @ drop k d) filename = None" by simp
  from map_of_insert_entry [OF this, of "File content"] show ?thesis
    unfolding d' by simp
next
  case (Some n)
  with assms have "d' = map (\<lambda>entry. if fst entry = filename then (filename, File content) else entry) d"
    by (cases n) (auto simp: write_entry_def)
  with Some show ?thesis by (simp add: fun_eq_iff map_of_replace_entry)
qed

lemma write_entry_ok_iff:
  "(\<exists>d'. write_entry k filename content d = Inr d') \<longleftrightarrow> map_of d filename \<noteq> Some Subdir"
  by (auto simp: write_entry_def split: option.splits node.splits)

lemma write_entry_InlD:
  "write_entry k filename content d = Inl e \<Longrightarrow> map_of d filename = Some Subdir"
  by (auto simp: write_entry_def split: option.splits node.splits)


lemma write_at_entry:
  "output_dir fs = Folder d \<Longrightarrow>
   write_at sys (In_output_dir filename) content fs =
     (case write_entry (os_place sys d filename) filename content d of
        Inl e \<Rightarrow> Inl e
      | Inr d' \<Rightarrow> Inr (fs\<lparr>output_dir := Folder d'\<rparr>))"
  by (simp add: write_at_def write_in_folder_def split: sum.splits)


text \<open>
  C2. When the transcript API returns a sequence of caption fragments,
  \<open>get_transcript_text\<close> returns their text fields joined with single spaces, and
  \<open>remove_timestamps\<close> of that text is the text with every line on which the timestamp
  pattern matches removed: the remaining lines, joined with newlines again. This is
  the text that \<open>download_transcript\<close> stores in the entry \<open><video_id>.txt\<close> of the output
  directory when the joined text is not empty, the joined path leads to that entry and
  the entry can be opened.
\<close>

theorem fetch_and_clean_text:
  "get_transcript video_id w = (Inr transcript, w') \<Longrightarrow>
     get_transcript_text get_transcript video_id w =
       (Inr (str_join '' '' (map item_text transcript)), w')
     \<and> remove_timestamps (str_join '' '' (map item_text transcript)) =
         str_join [newline]
           (filter (\<lambda>line. \<not> re_match timestamp_pattern line)
              (str_split newline (str_join '' '' (map item_text transcript))))
     \<and> (str_join '' '' (map item_text transcript) \<noteq> []
          \<and> os_join sys (video_id @ ''.txt'') = In_output_dir (video_id @ ''.txt'')
          \<and> output_dir fs = Folder d
          \<and> map_of d (video_id @ ''.txt'') \<noteq> Some Subdir \<longrightarrow>
        (\<exists>d'. download_transcript sys get_transcript video_id fs w
                 = ((True, fs\<lparr>output_dir := Folder d'\<rparr>, []), w')
           \<and> map_of d' (video_id @ ''.txt'') =
               Some (File (str_join [newline]
                     (filter (\<lambda>line. \<not> re_match timestamp_pattern line)
                        (str_split newline (str_join '' '' (map item_text transcript))))))))"
proof -
  assume g: "get_transcript video_id w = (Inr transcript, w')"
  let ?joined = "str_join '' '' (map item_text transcript)"
  let ?name = "video_id @ ''.txt''"
  have a: "get_transcript_text get_transcript video_id w = (Inr ?joined, w')"
    using g by (simp add: get_transcript_text_def)
  have b: "remove_timestamps ?joined =
      str_join [newline] (filter (\<lambda>line. \<not> re_match timestamp_pattern line) (str_split newline ?joined))"
    by (simp add: remove_timestamps_def filtered_lines_def)
  have c: "\<exists>d'. download_transcript sys get_transcript video_id fs w
                 = ((True, fs\<lparr>output_dir := Folder d'\<rparr>, []), w')
           \<and> map_of d' ?name = Some (File (remove_timestamps ?joined))"
    if ne: "?joined \<noteq> []" and j: "os_join sys ?name = In_output_dir ?name"
      and f: "output_dir fs = Folder d" and ns: "map_of d ?name \<noteq> Some Subdir"
  proof -
    from ns obtain d' where
      w: "write_entry (os_place sys d ?name) ?name (remove_timestamps ?joined) d = Inr d'"
      using write_entry_ok_iff [of "os_place sys d ?name" ?name "remove_timestamps ?joined" d] by blast
    from map_of_write_entry [OF w] have "map_of d' ?name = Some (File (remove_timestamps ?joined))"
      by simp
    moreover have "download_transcript sys get_transcript video_id fs w
        = ((True, fs\<lparr>output_dir := Folder d'\<rparr>, []), w')"
      using a ne w j by (simp add: download_transcript_def write_at_entry [OF f])
    ultimately show ?thesis by blast
  qed
  from a b c show ?thesis unfolding b [symmetric] by blast
qed

text \<open>
  C9. When the transcript API returns, without raising, a caption sequence whose
  space-joined text is empty, \<open>download_transcript\<close> returns \<open>False\<close>, leaves the files
  as they were and prints that no transcript was found.
\<close>

theorem download_transcript_empty_text:
  "get_transcript video_id w = (Inr transcript, w') \<Longrightarrow>
   str_join '' '' (map item_text transcript) = [] \<Longrightarrow>
   download_transcript sys get_transcript video_id fs w =
     ((False, fs, [No_English_transcript video_id]), w')"
  by (simp add: download_transcript_def get_transcript_text_def)


section \<open>\<open>get_all_video_ids\<close>\<close>

text \<open>
  C8. \<open>get_all_video_ids\<close> returns the \<open>videoId\<close> fields of the records of the scraper,
  in the scraper's order; an exception raised by the scraper is the result of
  \<open>get_all_video_ids\<close>, unchanged; and the world after the call is the world after a
  single call of the scraper (nothing is caught, nothing is tried again).
\<close>

theorem get_all_video_ids_delegates:
  "(get_channel channel_url w = (Inr videos, w') \<longrightarrow>
      get_all_video_ids get_channel channel_url w = (Inr (map videoId videos), w'))
   \<and> (get_channel channel_url w = (Inl e, w') \<longrightarrow>
      get_all_video_ids get_channel channel_url w = (Inl e, w'))
   \<and> snd (get_all_video_ids get_channel channel_url w) = snd (get_channel channel_url w)"
  by (auto simp: get_all_video_ids_def split: prod.splits sum.splits)

lemma example_scrape_two:
  "example_get_channel ''youtube.com/@two'' 0 =
     (Inr [\<lparr>videoId = ''a1''\<rparr>, \<lparr>videoId = ''a2''\<rparr>], Suc 0)"
  by code_simp

lemma example_scrape_gone:
  "example_get_channel ''youtube.com/@gone'' 0 = (Inl (Library ''HTTPError''), Suc 0)"
  by code_simp

lemma example_ids: "map videoId [\<lparr>videoId = ''a1''\<rparr>, \<lparr>videoId = ''a2''\<rparr>] = [''a1'', ''a2'']"
  by simp

theorem get_all_video_ids_delegates_witness:
  "example_get_channel ''youtube.com/@two'' 0 =
     (Inr [\<lparr>videoId = ''a1''\<rparr>, \<lparr>videoId = ''a2''\<rparr>], Suc 0)
   \<and> get_all_video_ids example_get_channel ''youtube.com/@two'' 0 = (Inr [''a1'', ''a2''], Suc 0)
   \<and> example_get_channel ''youtube.com/@gone'' 0 = (Inl (Library ''HTTPError''), Suc 0)
   \<and> get_all_video_ids example_get_channel ''youtube.com/@gone'' 0
       = (Inl (Library ''HTTPError''), Suc 0)"
proof -
  note t1 = get_all_video_ids_delegates [where get_channel = example_get_channel
      and channel_url = "''youtube.com/@two''" and w = 0, THEN conjunct1, THEN mp, OF example_scrape_two,
      unfolded example_ids]
  note t2 = get_all_video_ids_delegates [where get_channel = example_get_channel
      and channel_url = "''youtube.com/@gone''" and w = 0, THEN conjunct2, THEN conjunct1, THEN mp,
      OF example_scrape_gone]
  from example_scrape_two t1 example_scrape_gone t2 show ?thesis by (intro conjI)
qed

section \<open>\<open>clear_transcript_folder\<close>\<close>

lemma map_of_remove_entry:
  "map_of (remove_entry filename d) n = (if n = filename then None else map_of d n)"
  by (induction d) (auto simp: remove_entry_def)

lemma isfile_remove_entry:
  "isfile (remove_entry filename d) n \<longleftrightarrow> n \<noteq> filename \<and> isfile d n"
  by (simp add: isfile_def map_of_remove_entry)

lemma clear_loop_eq:
  "clear_loop unlink ns d out =
     (filter (\<lambda>entry. \<not> (fst entry \<in> set ns \<and> isfile d (fst entry) \<and> unlink (fst entry) = None)) d,
      out @ map (\<lambda>n. Error_deleting n (the (unlink n)))
              (filter (\<lambda>n. isfile d n \<and> unlink n \<noteq> None) ns))"
proof (induction ns arbitrary: d out)
  case Nil
  then show ?case by simp
next
  case (Cons f rest)
  show ?case
  proof (cases "isfile d f")
    case False
    have "filter (\<lambda>entry. \<not> (fst entry \<in> set rest \<and> isfile d (fst entry) \<and> unlink (fst entry) = None)) d
        = filter (\<lambda>entry. \<not> (fst entry \<in> set (f # rest) \<and> isfile d (fst entry) \<and> unlink (fst entry) = None)) d"
      using False by (intro filter_cong) auto
    note eq = this
    have c: "filter (\<lambda>n. isfile d n \<and> unlink n \<noteq> None) (f # rest)
          = filter (\<lambda>n. isfile d n \<and> unlink n \<noteq> None) rest"
      using False by simp
    have "clear_loop unlink (f # rest) d out = clear_loop unlink rest d out"
      using False by simp
    also note Cons.IH [of d out]
    finally show ?thesis unfolding eq c .
  next
    case True
    show ?thesis
    proof (cases "unlink f")
      case (Some e)
      have "filter (\<lambda>entry. \<not> (fst entry \<in> set rest \<and> isfile d (fst entry) \<and> unlink (fst entry) = None)) d
        = filter (\<lambda>entry. \<not> (fst entry \<in> set (f # rest) \<and> isfile d (fst entry) \<and> unlink (fst entry) = None)) d"
        using Some by (intro filter_cong) auto
      note eq = this
      have c: "filter (\<lambda>n. isfile d n \<and> unlink n \<noteq> None) (f # rest)
          = f # filter (\<lambda>n. isfile d n \<and> unlink n \<noteq> None) rest"
        using True Some by simp
      have "clear_loop unlink (f # rest) d out = clear_loop unlink rest d (out @ [Error_deleting f e])"
        using True Some by simp
      also note Cons.IH [of d "out @ [Error_deleting f e]"]
      finally show ?thesis unfolding eq c using Some by simp
    next
      case None
      have a: "filter (\<lambda>entry. \<not> (fst entry \<in> set rest \<and> isfile (remove_entry f d) (fst entry)
                  \<and> unlink (fst entry) = None)) (remove_entry f d)
        = filter (\<lambda>entry. \<not> (fst entry \<in> set (f # rest) \<and> isfile d (fst entry) \<and> unlink (fst entry) = None)) d"
        using True None unfolding remove_entry_def filter_filter
        by (intro filter_cong) (auto simp: isfile_remove_entry [unfolded remove_entry_def])
      have b: "filter (\<lambda>n. isfile (remove_entry f d) n \<and> unlink n \<noteq> None) rest
        = filter (\<lambda>n. isfile d n \<and> unlink n \<noteq> None) rest"
        using None by (intro filter_cong) (auto simp: isfile_remove_entry)
      have c: "filter (\<lambda>n. isfile d n \<and> unlink n \<noteq> None) (f # rest)
          = filter (\<lambda>n. isfile d n \<and> unlink n \<noteq> None) rest"
        using None by simp
      have "clear_loop unlink (f # rest) d out = clear_loop unlink rest (remove_entry f d) out"
        using True None by simp
      also note Cons.IH [of "remove_entry f d" out]
      finally show ?thesis unfolding a b c .
    qed
  qed
qed

lemma isfile_distinct:
  "distinct (listdir d) \<Longrightarrow> (n, File c) \<in> set d \<Longrightarrow> isfile d n"
  by (simp add: isfile_def listdir_def)

lemma isfile_mem: "isfile d n \<Longrightarrow> \<exists>c. (n, File c) \<in> set d"
  by (auto simp: isfile_def split: option.splits node.splits dest: map_of_SomeD)

lemma clear_transcript_folder_Folder:
  "clear_transcript_folder unlink (Folder d) =
     Inr (Folder (filter (\<lambda>entry. \<not> (isfile d (fst entry) \<and> unlink (fst entry) = None)) d),
          map (\<lambda>n. Error_deleting n (the (unlink n)))
            (filter (\<lambda>n. isfile d n \<and> unlink n \<noteq> None) (listdir d))
          @ [All_transcript_files_cleared])"
proof -
  have "filter (\<lambda>entry. \<not> (fst entry \<in> set (listdir d) \<and> isfile d (fst entry) \<and> unlink (fst entry) = None)) d
      = filter (\<lambda>entry. \<not> (isfile d (fst entry) \<and> unlink (fst entry) = None)) d"
    by (intro filter_cong) (auto simp: listdir_def)
  then show ?thesis by (simp add: clear_transcript_folder_def clear_loop_eq)
qed

text \<open>
  C6. \<open>clear_transcript_folder\<close> on an existing directory, with any number of entries.
  Every regular file whose \<open>unlink\<close> succeeds is removed, whatever happens to the other
  files; each failing \<open>unlink\<close> is reported, in listing order, and the success message
  follows. When the deletion of every regular file succeeds only the entries that are
  not regular files remain and nothing is reported; so a directory of regular files
  only is left empty.
\<close>

theorem clear_transcript_folder_deletes_regular_files:
  "clear_transcript_folder unlink (Folder d) =
     Inr (Folder (filter (\<lambda>entry. \<not> (isfile d (fst entry) \<and> unlink (fst entry) = None)) d),
          map (\<lambda>n. Error_deleting n (the (unlink n)))
            (filter (\<lambda>n. isfile d n \<and> unlink n \<noteq> None) (listdir d))
          @ [All_transcript_files_cleared])
   \<and> (distinct (listdir d) \<and> (\<forall>entry\<in>set d. snd entry \<noteq> Subdir \<longrightarrow> unlink (fst entry) = None) \<longrightarrow>
        clear_transcript_folder unlink (Folder d) =
          Inr (Folder (filter (\<lambda>entry. snd entry = Subdir) d), [All_transcript_files_cleared]))
   \<and> (distinct (listdir d) \<and> (\<forall>entry\<in>set d. unlink (fst entry) = None \<and> snd entry \<noteq> Subdir) \<longrightarrow>
        clear_transcript_folder unlink (Folder d) = Inr (Folder [], [All_transcript_files_cleared]))"
proof -
  have a: "clear_transcript_folder unlink (Folder d) =
     Inr (Folder (filter (\<lambda>entry. \<not> (isfile d (fst entry) \<and> unlink (fst entry) = None)) d),
          map (\<lambda>n. Error_deleting n (the (unlink n)))
            (filter (\<lambda>n. isfile d n \<and> unlink n \<noteq> None) (listdir d))
          @ [All_transcript_files_cleared])"
    by (rule clear_transcript_folder_Folder)
  have b: "clear_transcript_folder unlink (Folder d) =
          Inr (Folder (filter (\<lambda>entry. snd entry = Subdir) d), [All_transcript_files_cleared])"
    if dist: "distinct (listdir d)"
      and ok: "\<forall>entry\<in>set d. snd entry \<noteq> Subdir \<longrightarrow> unlink (fst entry) = None"
  proof -
    have "filter (\<lambda>entry. \<not> (isfile d (fst entry) \<and> unlink (fst entry) = None)) d
        = filter (\<lambda>entry. snd entry = Subdir) d"
    proof (intro filter_cong refl)
      fix entry assume m: "entry \<in> set d"
      obtain n k where e: "entry = (n, k)" by (cases entry)
      show "(\<not> (isfile d (fst entry) \<and> unlink (fst entry) = None)) = (snd entry = Subdir)"
      proof (cases k)
        case (File c)
        with m e dist have "isfile d n" by (auto intro: isfile_distinct)
        with File e ok m show ?thesis by auto
      next
        case Subdir
        with m e dist have "map_of d n = Some Subdir" by (simp add: listdir_def)
        then have "\<not> isfile d n" by (simp add: isfile_def)
        with Subdir e show ?thesis by simp
      qed
    qed
    moreover have "filter (\<lambda>n. isfile d n \<and> unlink n \<noteq> None) (listdir d) = []"
    proof -
      have "unlink n = None" if "isfile d n" for n
      proof -
        from that obtain c where "(n, File c) \<in> set d" using isfile_mem by blast
        with ok show ?thesis by force
      qed
      then show ?thesis by (auto simp: filter_empty_conv)
    qed
    ultimately show ?thesis using a by simp
  qed
  have c: "clear_transcript_folder unlink (Folder d) = Inr (Folder [], [All_transcript_files_cleared])"
    if dist: "distinct (listdir d)" and ok: "\<forall>entry\<in>set d. unlink (fst entry) = None \<and> snd entry \<noteq> Subdir"
  proof -
    have "filter (\<lambda>entry. snd entry = Subdir) d = []"
      using ok by (auto simp: filter_empty_conv)
    with b [OF dist] ok show ?thesis by simp
  qed
  from a b c show ?thesis by blast
qed

lemma example_dir_distinct: "distinct (listdir example_dir)"
  by code_simp

lemma example_unlink_ok:
  "\<forall>entry\<in>set example_dir. snd entry \<noteq> Subdir \<longrightarrow> unlink_ok (fst entry) = None"
  by code_simp

lemma example_kept_refused:
  "filter (\<lambda>entry. \<not> (isfile example_dir (fst entry) \<and> unlink_refused (fst entry) = None)) example_dir
     = [(''b.txt'', File ''x''), (''sub'', Subdir)]"
  by code_simp

lemma example_reported_refused:
  "map (\<lambda>n. Error_deleting n (the (unlink_refused n)))
      (filter (\<lambda>n. isfile example_dir n \<and> unlink_refused n \<noteq> None) (listdir example_dir))
     = [Error_deleting ''b.txt'' (Library ''PermissionError'')]"
  by code_simp

lemma example_kept_ok: "filter (\<lambda>entry. snd entry = Subdir) example_dir = [(''sub'', Subdir)]"
  by code_simp

theorem clear_transcript_folder_deletes_regular_files_witness:
  "clear_transcript_folder unlink_refused (Folder example_dir) =
     Inr (Folder [(''b.txt'', File ''x''), (''sub'', Subdir)],
          [Error_deleting ''b.txt'' (Library ''PermissionError'')] @ [All_transcript_files_cleared])
   \<and> distinct (listdir example_dir)
   \<and> list_all (\<lambda>entry. snd entry \<noteq> Subdir \<longrightarrow> unlink_ok (fst entry) = None) example_dir
   \<and> clear_transcript_folder unlink_ok (Folder example_dir) =
       Inr (Folder [(''sub'', Subdir)], [All_transcript_files_cleared])
   \<and> distinct (listdir [(''a.txt'', File ''old''), (''c.txt'', File ''new'')])
   \<and> list_all (\<lambda>entry. unlink_ok (fst entry) = None \<and> snd entry \<noteq> Subdir)
         [(''a.txt'', File ''old''), (''c.txt'', File ''new'')]
   \<and> clear_transcript_folder unlink_ok (Folder [(''a.txt'', File ''old''), (''c.txt'', File ''new'')]) =
       Inr (Folder [], [All_transcript_files_cleared])"
proof -
  note t1 = clear_transcript_folder_deletes_regular_files
    [of unlink_refused example_dir, THEN conjunct1, unfolded example_kept_refused example_reported_refused]
  have h2: "distinct (listdir example_dir)
      \<and> (\<forall>entry\<in>set example_dir. snd entry \<noteq> Subdir \<longrightarrow> unlink_ok (fst entry) = None)"
    using example_dir_distinct example_unlink_ok by (intro conjI)
  note t2 = clear_transcript_folder_deletes_regular_files
    [of unlink_ok example_dir, THEN conjunct2, THEN conjunct1, THEN mp, OF h2, unfolded example_kept_ok]
  have d3: "distinct (listdir [(''a.txt'', File ''old''), (''c.txt'', File ''new'')])"
    by code_simp
  have u3: "\<forall>entry\<in>set [(''a.txt'', File ''old''), (''c.txt'', File ''new'')].
         unlink_ok (fst entry) = None \<and> snd entry \<noteq> Subdir"
    by code_simp
  from d3 u3 have h3: "distinct (listdir [(''a.txt'', File ''old''), (''c.txt'', File ''new'')])
     \<and> (\<forall>entry\<in>set [(''a.txt'', File ''old''), (''c.txt'', File ''new'')].
         unlink_ok (fst entry) = None \<and> snd entry \<noteq> Subdir)"
    by (intro conjI)
  note t3 = clear_transcript_folder_deletes_regular_files
    [of unlink_ok "[(''a.txt'', File ''old''), (''c.txt'', File ''new'')]",
     THEN conjunct2, THEN conjunct2, THEN mp, OF h3]
  from t1 example_dir_distinct example_unlink_ok [folded list_all_iff] t2 d3
    u3 [folded list_all_iff] t3
  show ?thesis by (intro conjI)
qed

section \<open>\<open>concatenate_transcripts\<close>\<close>

lemma txt_files_append: "txt_files (a @ b) = txt_files a @ txt_files b"
  by (induction a rule: txt_files.induct) auto

lemma combined_text_append: "combined_text sys (a @ b) = combined_text sys a @ combined_text sys b"
  by (simp add: combined_text_def txt_files_append)

lemma combined_text_Nil: "combined_text sys [] = []"
  by (simp add: combined_text_def)

lemma combined_text_Cons:
  "combined_text sys ((n, k) # d) =
     (if endswith n ''.txt'' then
        (case k of File c \<Rightarrow> text_of sys (n, c) @ [newline, newline] | Subdir \<Rightarrow> [])
      else [])
     @ combined_text sys d"
  by (cases k) (simp_all add: combined_text_def)

lemma combined_text_no_txt:
  "\<forall>entry\<in>set d. \<not> endswith (fst entry) ''.txt'' \<Longrightarrow> combined_text sys d = []"
  by (induction d rule: txt_files.induct) (auto simp: combined_text_def)

lemma txt_files_names:
  "\<forall>entry\<in>set d. endswith (fst entry) ''.txt'' \<longrightarrow> snd entry \<noteq> Subdir \<Longrightarrow>
   map fst (txt_files d) = filter (\<lambda>n. endswith n ''.txt'') (listdir d)"
  by (induction d rule: txt_files.induct) (auto simp: listdir_def)

lemma concatenate_loop_entries:
  assumes "\<forall>entry\<in>set es. map_of d (fst entry) = Some (snd entry)"
    and "\<forall>entry\<in>set es. endswith (fst entry) ''.txt'' \<longrightarrow>
            final_file \<noteq> In_output_dir (fst entry)
          \<and> (\<exists>stored t. snd entry = File stored \<and> os_read_text sys (fst entry) stored = Inr t)"
  shows "concatenate_loop sys final_file d (listdir es) written = Inr (written @ combined_text sys es)"
  using assms
proof (induction es arbitrary: written)
  case Nil
  then show ?case by (simp add: listdir_def combined_text_def)
next
  case (Cons entry es)
  obtain n k where e: "entry = (n, k)" by (cases entry)
  from Cons.prems have ih:
    "concatenate_loop sys final_file d (listdir es) w = Inr (w @ combined_text sys es)" for w
    by (intro Cons.IH) auto
  show ?case
  proof (cases "endswith n ''.txt''")
    case False
    with e ih show ?thesis by (simp add: listdir_def combined_text_Cons)
  next
    case True
    with Cons.prems e obtain c t where k: "k = File c" and nf: "final_file \<noteq> In_output_dir n"
      and m: "map_of d n = Some (File c)" and rd: "os_read_text sys n c = Inr t"
      by auto
    from True nf m rd have "concatenate_loop sys final_file d (listdir (entry # es)) written
        = concatenate_loop sys final_file d (listdir es) (written @ t @ [newline, newline])"
      by (simp add: listdir_def e read_entry_def)
    with ih True e k rd show ?thesis by (simp add: combined_text_Cons text_of_def)
  qed
qed

lemma concatenate_loop_dir:
  assumes "distinct (listdir d)"
    and "\<forall>entry\<in>set d. endswith (fst entry) ''.txt'' \<longrightarrow>
            final_file \<noteq> In_output_dir (fst entry)
          \<and> (\<exists>stored t. snd entry = File stored \<and> os_read_text sys (fst entry) stored = Inr t)"
  shows "concatenate_loop sys final_file d (listdir d) [] = Inr (combined_text sys d)"
proof -
  have "\<forall>entry\<in>set d. map_of d (fst entry) = Some (snd entry)"
    using assms(1) by (auto simp: listdir_def)
  from concatenate_loop_entries [OF this assms(2), of "[]"] show ?thesis by simp
qed

lemma txt_files_replace:
  "\<not> endswith n ''.txt'' \<Longrightarrow>
   txt_files (map (\<lambda>entry. if fst entry = n then (n, v) else entry) d) = txt_files d"
  by (induction d rule: txt_files.induct) (cases v; auto)+

lemma write_entry_keeps_txt:
  assumes "write_entry k n c d = Inr d1" and "\<not> endswith n ''.txt''" and "distinct (listdir d)"
  shows "distinct (listdir d1) \<and> combined_text sys d1 = combined_text sys d
       \<and> (\<forall>entry\<in>set d1. endswith (fst entry) ''.txt'' \<longrightarrow> entry \<in> set d)"
proof (cases "map_of d n")
  case None
  with assms(1) have d1: "d1 = take k d @ [(n, File c)] @ drop k d" by (simp add: write_entry_def)
  from None have nn: "n \<notin> set (listdir d)" by (simp add: listdir_def map_of_eq_None_iff)
  have "combined_text sys d1 = combined_text sys (take k d) @ combined_text sys (drop k d)"
    unfolding d1 using assms(2)
    by (simp add: combined_text_append combined_text_Cons combined_text_Nil)
  also have "\<dots> = combined_text sys d"
    unfolding combined_text_append [symmetric] by simp
  finally have ct: "combined_text sys d1 = combined_text sys d" .
  have "distinct (take k (listdir d) @ drop k (listdir d))"
    using assms(3) by simp
  moreover have "set (take k (listdir d)) \<subseteq> set (listdir d)" "set (drop k (listdir d)) \<subseteq> set (listdir d)"
    by (auto dest: in_set_takeD in_set_dropD)
  ultimately have "distinct (listdir d1)"
    unfolding d1 listdir_def using nn
    by (auto simp: take_map drop_map listdir_def simp del: append_take_drop_id)
  moreover have "\<forall>entry\<in>set d1. endswith (fst entry) ''.txt'' \<longrightarrow> entry \<in> set d"
    unfolding d1 using assms(2) by (auto dest: in_set_takeD in_set_dropD)
  ultimately show ?thesis using ct by simp
next
  case (Some v)
  with assms(1) have d1: "d1 = map (\<lambda>entry. if fst entry = n then (n, File c) else entry) d"
    by (cases v) (auto simp: write_entry_def)
  have "listdir d1 = listdir d"
    unfolding d1 listdir_def by (induction d) auto
  moreover have "combined_text sys d1 = combined_text sys d"
    unfolding d1 combined_text_def by (simp add: txt_files_replace [OF assms(2)])
  moreover have "\<forall>entry\<in>set d1. endswith (fst entry) ''.txt'' \<longrightarrow> entry \<in> set d"
    unfolding d1 using assms(2) by auto
  ultimately show ?thesis using assms(3) by simp
qed

lemma concatenate_transcripts_outside:
  assumes "output_dir fs = Folder d"
    and "distinct (listdir d)"
    and "\<forall>entry\<in>set d. endswith (fst entry) ''.txt'' \<longrightarrow>
           (\<exists>stored t. snd entry = File stored \<and> os_read_text sys (fst entry) stored = Inr t)"
  shows "concatenate_transcripts sys (Outside p) fs
        = Inr (fs\<lparr>outside := (outside fs)(p \<mapsto> combined_text sys d)\<rparr>)"
proof -
  have "\<forall>entry\<in>set d. endswith (fst entry) ''.txt'' \<longrightarrow>
          Outside p \<noteq> In_output_dir (fst entry)
        \<and> (\<exists>stored t. snd entry = File stored \<and> os_read_text sys (fst entry) stored = Inr t)"
    using assms(3) by simp
  from concatenate_loop_dir [OF assms(2) this] assms(1) show ?thesis
    by (simp add: concatenate_transcripts_def write_at_def close_final_def)
qed

text \<open>
  C1, as amended. Let the output directory exist, every entry of it whose name ends in
  \<open>.txt\<close> be a regular file that can be read, and the final file be a file that can be
  opened for writing and is not a name ending in \<open>.txt\<close> inside the output directory,
  present or not: its path leads outside the output directory, or to an entry of it
  whose name does not end in \<open>.txt\<close> and is not a subdirectory. Then
  \<open>concatenate_transcripts\<close> succeeds and the final file holds exactly the text read
  from each \<open>.txt\<close> file followed by two newlines, one block per file in listing order,
  whatever it held before; a final file outside the directory is the only thing that
  changes.
\<close>

theorem concatenate_transcripts_combined:
  assumes dir: "output_dir fs = Folder d"
    and dist: "distinct (listdir d)"
    and files: "\<forall>entry\<in>set d. endswith (fst entry) ''.txt'' \<longrightarrow>
           (\<exists>stored t. snd entry = File stored \<and> os_read_text sys (fst entry) stored = Inr t)"
    and loc: "final_file = Outside p \<or>
              (\<exists>n. final_file = In_output_dir n \<and> \<not> endswith n ''.txt'' \<and> map_of d n \<noteq> Some Subdir)"
  shows "(\<exists>fs'. concatenate_transcripts sys final_file fs = Inr fs'
          \<and> stored_at final_file fs' = Some (combined_text sys d)
          \<and> (final_file = Outside p \<longrightarrow>
                fs' = fs\<lparr>outside := (outside fs)(p \<mapsto> combined_text sys d)\<rparr>))
       \<and> map fst (txt_files d) = filter (\<lambda>filename. endswith filename ''.txt'') (listdir d)
       \<and> distinct (map fst (txt_files d))"
proof -
  have files': "\<forall>entry\<in>set d. endswith (fst entry) ''.txt'' \<longrightarrow> snd entry \<noteq> Subdir"
    using files by auto
  have names: "map fst (txt_files d) = filter (\<lambda>filename. endswith filename ''.txt'') (listdir d)"
    using files' by (rule txt_files_names)
  then have dn: "distinct (map fst (txt_files d))"
    using dist by simp
  from loc show ?thesis
  proof
    assume o: "final_file = Outside p"
    have "concatenate_transcripts sys final_file fs
        = Inr (fs\<lparr>outside := (outside fs)(p \<mapsto> combined_text sys d)\<rparr>)"
      unfolding o using dir dist files by (rule concatenate_transcripts_outside)
    with o names dn show ?thesis by (simp add: stored_at_def)
  next
    assume "\<exists>n. final_file = In_output_dir n \<and> \<not> endswith n ''.txt'' \<and> map_of d n \<noteq> Some Subdir"
    then obtain n where i: "final_file = In_output_dir n" and nt: "\<not> endswith n ''.txt''"
      and ns: "map_of d n \<noteq> Some Subdir" by blast
    from ns obtain d1 where w1: "write_entry (os_place sys d n) n [] d = Inr d1"
      using write_entry_ok_iff [of "os_place sys d n" n "[]" d] by blast
    note k = write_entry_keeps_txt [OF w1 nt dist, of sys]
    have m1: "map_of d1 = (map_of d)(n \<mapsto> File [])"
      using w1 by (rule map_of_write_entry)
    then obtain d2 where w2: "write_entry (os_place sys d1 n) n (combined_text sys d) d1 = Inr d2"
      using write_entry_ok_iff [of "os_place sys d1 n" n "combined_text sys d" d1] by auto
    have m2: "map_of d2 = (map_of d1)(n \<mapsto> File (combined_text sys d))"
      using w2 by (rule map_of_write_entry)
    have "\<forall>entry\<in>set d1. endswith (fst entry) ''.txt'' \<longrightarrow>
            final_file \<noteq> In_output_dir (fst entry)
          \<and> (\<exists>stored t. snd entry = File stored \<and> os_read_text sys (fst entry) stored = Inr t)"
      using k files i nt by auto
    from concatenate_loop_dir [OF _ this] k
    have l: "concatenate_loop sys final_file d1 (listdir d1) [] = Inr (combined_text sys d)"
      by simp
    have f1: "output_dir (fs\<lparr>output_dir := Folder d1\<rparr>) = Folder d1" by simp
    have "concatenate_transcripts sys final_file fs = Inr (fs\<lparr>output_dir := Folder d2\<rparr>)"
      using i w1 w2 l
      by (simp add: concatenate_transcripts_def close_final_def write_at_entry [OF dir]
            write_at_entry [OF f1])
    moreover have "stored_at final_file (fs\<lparr>output_dir := Folder d2\<rparr>) = Some (combined_text sys d)"
      using i m2 by (simp add: stored_at_def)
    ultimately show ?thesis using i names dn by simp
  qed
qed

section \<open>The run on an empty channel\<close>

lemma process_videos_returns:
  "total_videos \<noteq> 0 \<Longrightarrow> \<exists>r. fst (process_videos env total_videos i video_ids fs out w) = Inr r"
proof (induction video_ids arbitrary: i fs out w)
  case Nil
  then show ?case by simp
next
  case (Cons video_id rest)
  obtain ok fs' printed w' where
    d: "download_transcript (system env) (api_get_transcript env) video_id fs w = ((ok, fs', printed), w')"
    by (metis prod.exhaust)
  from Cons.prems d Cons.IH [OF Cons.prems] show ?case by simp
qed

lemma process_videos_length:
  "\<exists>r. fst (process_videos env (length video_ids) i video_ids fs out w) = Inr r"
proof (cases video_ids)
  case Nil
  then show ?thesis by simp
next
  case (Cons v vs)
  then have "length video_ids \<noteq> 0" by simp
  then show ?thesis by (rule process_videos_returns)
qed

lemma main_download_after_clear:
  assumes url: "channel_url \<noteq> []"
    and none: "scrapetube_get_channel env channel_url w = (Inr [], w')"
    and loc: "os_resolve (system env)
                (if name = [] then ''combined_transcripts.txt'' else name @ ''.txt'') = Outside p"
    and rd: "os_read_text (system env) p [] = Inr data"
    and start: "(if output_dir fs = Missing
                 then (case os_makedirs env of
                         None \<Rightarrow> Inr (fs\<lparr>output_dir := Folder []\<rparr>)
                       | Some e \<Rightarrow> Inl e)
                 else Inr fs) = Inr fs1"
    and clear: "clear_transcript_folder (os_unlink env) (output_dir fs1) = Inr (Folder d', out2)"
    and dist: "distinct (listdir d')"
    and notxt: "\<forall>entry\<in>set d'. \<not> endswith (fst entry) ''.txt''"
  shows "main_download env channel_url name fs w =
     (Inr (fs1\<lparr>output_dir := Folder d', outside := (outside fs1)(p \<mapsto> [])\<rparr>,
           out2 @ [Found_videos 0, Progress_bar_created, Combining_transcripts,
             All_transcripts_combined (if name = [] then ''combined_transcripts.txt'' else name @ ''.txt''),
             Download_button data (if name = [] then ''combined_transcripts.txt'' else name @ ''.txt'')]), w')"
proof -
  have files: "\<forall>entry\<in>set d'. endswith (fst entry) ''.txt'' \<longrightarrow>
      (\<exists>stored t. snd entry = File stored \<and> os_read_text (system env) (fst entry) stored = Inr t)"
    using notxt by simp
  have "concatenate_transcripts (system env) (Outside p) (fs1\<lparr>output_dir := Folder d'\<rparr>)
      = Inr (fs1\<lparr>output_dir := Folder d'\<rparr>\<lparr>outside :=
               (outside (fs1\<lparr>output_dir := Folder d'\<rparr>))(p \<mapsto> combined_text (system env) d')\<rparr>)"
    by (rule concatenate_transcripts_outside [OF _ dist files]) simp
  then have conc: "concatenate_transcripts (system env) (Outside p) (fs1\<lparr>output_dir := Folder d'\<rparr>)
      = Inr (fs1\<lparr>output_dir := Folder d', outside := (outside fs1)(p \<mapsto> [])\<rparr>)"
    by (simp add: combined_text_no_txt [OF notxt])
  show ?thesis
    unfolding main_download_def Let_def start loc
    using url none clear conc rd
    by (simp add: get_all_video_ids_def read_at_def)
qed

text \<open>
  C7, as amended. Let a channel URL be given, the scraper list no video, the path of
  the final file lead to a file outside the output directory that can be opened for
  writing and, once empty, be read back, and the output directory be missing and
  created by \<open>os.makedirs\<close>, or a directory in which every entry whose name ends in
  \<open>.txt\<close> is a regular file that \<open>os.unlink\<close> deletes. Then the run raises nothing and the combined file exists and is
  empty. In every run the loop over an empty list of identifiers does nothing, and the
  progress computation never divides by zero, whatever the list.
\<close>

theorem main_download_empty_channel:
  assumes url: "channel_url \<noteq> []"
    and none: "scrapetube_get_channel env channel_url w = (Inr [], w')"
    and loc: "os_resolve (system env)
                (if name = [] then ''combined_transcripts.txt'' else name @ ''.txt'') = Outside p"
    and rd: "os_read_text (system env) p [] = Inr data"
    and dir: "(output_dir fs = Missing \<and> os_makedirs env = None) \<or>
       (\<exists>d. output_dir fs = Folder d \<and> distinct (listdir d)
          \<and> (\<forall>entry\<in>set d. endswith (fst entry) ''.txt'' \<longrightarrow>
                 snd entry \<noteq> Subdir \<and> os_unlink env (fst entry) = None))"
  shows "(\<exists>fs' out. main_download env channel_url name fs w = (Inr (fs', out), w')
            \<and> outside fs' p = Some []
            \<and> stored_at (Outside p) fs' = Some [])
       \<and> process_videos env (length ([] :: string list)) 1 [] fs0 out0 w0 = (Inr (fs0, out0), w0)
       \<and> fst (process_videos env (length video_ids) 1 video_ids fs0 out0 w0) \<noteq> Inl ZeroDivisionError"
proof -
  have nz: "fst (process_videos env (length video_ids) 1 video_ids fs0 out0 w0) \<noteq> Inl ZeroDivisionError"
    using process_videos_length [of env video_ids 1 fs0 out0 w0] by auto
  have run: "\<exists>fs' out. main_download env channel_url name fs w = (Inr (fs', out), w')
            \<and> outside fs' p = Some [] \<and> stored_at (Outside p) fs' = Some []"
    using dir
  proof
    assume "output_dir fs = Missing \<and> os_makedirs env = None"
    then have m: "output_dir fs = Missing" and mk: "os_makedirs env = None" by simp_all
    have c: "clear_transcript_folder (os_unlink env) (output_dir (fs\<lparr>output_dir := Folder []\<rparr>))
        = Inr (Folder [], [] @ [All_transcript_files_cleared])"
      by (simp add: clear_transcript_folder_Folder listdir_def)
    have s: "(if output_dir fs = Missing
              then (case os_makedirs env of
                      None \<Rightarrow> Inr (fs\<lparr>output_dir := Folder []\<rparr>)
                    | Some e \<Rightarrow> Inl e)
              else Inr fs) = Inr (fs\<lparr>output_dir := Folder []\<rparr>)"
      using m mk by simp
    from main_download_after_clear [OF url none loc rd s c]
    show ?thesis by (simp add: listdir_def stored_at_def)
  next
    assume "\<exists>d. output_dir fs = Folder d \<and> distinct (listdir d)
          \<and> (\<forall>entry\<in>set d. endswith (fst entry) ''.txt'' \<longrightarrow>
                 snd entry \<noteq> Subdir \<and> os_unlink env (fst entry) = None)"
    then obtain d where f: "output_dir fs = Folder d" and dist: "distinct (listdir d)"
      and ok: "\<forall>entry\<in>set d. endswith (fst entry) ''.txt'' \<longrightarrow>
                 snd entry \<noteq> Subdir \<and> os_unlink env (fst entry) = None"
      by blast
    let ?d' = "filter (\<lambda>entry. \<not> (isfile d (fst entry) \<and> os_unlink env (fst entry) = None)) d"
    have s: "(if output_dir fs = Missing
              then (case os_makedirs env of
                      None \<Rightarrow> Inr (fs\<lparr>output_dir := Folder []\<rparr>)
                    | Some e \<Rightarrow> Inl e)
              else Inr fs) = Inr fs"
      using f by simp
    have c: "clear_transcript_folder (os_unlink env) (output_dir fs) = Inr (Folder ?d',
          map (\<lambda>n. Error_deleting n (the (os_unlink env n)))
            (filter (\<lambda>n. isfile d n \<and> os_unlink env n \<noteq> None) (listdir d))
          @ [All_transcript_files_cleared])"
      unfolding f by (rule clear_transcript_folder_Folder)
    have d1: "distinct (listdir ?d')"
      using dist unfolding listdir_def by (rule distinct_map_filter)
    have d2: "\<forall>entry\<in>set ?d'. \<not> endswith (fst entry) ''.txt''"
    proof
      fix entry assume m: "entry \<in> set ?d'"
      show "\<not> endswith (fst entry) ''.txt''"
      proof
        assume t: "endswith (fst entry) ''.txt''"
        obtain n k where e: "entry = (n, k)" by (cases entry)
        from m have md: "entry \<in> set d" by simp
        with ok t e have "k \<noteq> Subdir" and u: "os_unlink env n = None" by auto
        then obtain c where "k = File c" by (cases k) auto
        with md e dist have "isfile d n" by (auto intro: isfile_distinct)
        with u m e show False by simp
      qed
    qed
    from main_download_after_clear [OF url none loc rd s c d1 d2]
    show ?thesis by (simp add: stored_at_def)
  qed
  from run nz show ?thesis by simp
qed

section \<open>Worked examples\<close>

lemma example_fetch_a1:
  "example_get_transcript ''a1'' 0 =
     (Inr [\<lparr>item_text = ''intro\<newline>00:00:01,000 --> 00:00:02,500''\<rparr>,
           \<lparr>item_text = ''tail\<newline>next''\<rparr>], Suc 0)"
  by (simp add: example_get_transcript_def)

lemma example_joined_a1:
  "str_join '' '' (map item_text [\<lparr>item_text = ''intro\<newline>00:00:01,000 --> 00:00:02,500''\<rparr>,
           \<lparr>item_text = ''tail\<newline>next''\<rparr>])
     = ''intro\<newline>00:00:01,000 --> 00:00:02,500 tail\<newline>next''"
  by simp

lemma example_cleaned_a1:
  "str_join [newline] (filter (\<lambda>line. \<not> re_match timestamp_pattern line)
      (str_split newline ''intro\<newline>00:00:01,000 --> 00:00:02,500 tail\<newline>next''))
     = ''intro\<newline>next''"
  by code_simp

lemma example_join_a1: "os_join example_os (''a1'' @ ''.txt'') = In_output_dir (''a1'' @ ''.txt'')"
  by code_simp

lemma empty_fs_dir: "output_dir empty_fs = Folder []"
  by (simp add: empty_fs_def)

theorem fetch_and_clean_text_witness:
  "example_get_transcript ''a1'' 0 =
     (Inr [\<lparr>item_text = ''intro\<newline>00:00:01,000 --> 00:00:02,500''\<rparr>,
           \<lparr>item_text = ''tail\<newline>next''\<rparr>], Suc 0)
   \<and> get_transcript_text example_get_transcript ''a1'' 0 =
       (Inr ''intro\<newline>00:00:01,000 --> 00:00:02,500 tail\<newline>next'', Suc 0)
   \<and> remove_timestamps ''intro\<newline>00:00:01,000 --> 00:00:02,500 tail\<newline>next''
       = ''intro\<newline>next''
   \<and> ''intro\<newline>00:00:01,000 --> 00:00:02,500 tail\<newline>next'' \<noteq> []
   \<and> os_join example_os (''a1'' @ ''.txt'') = In_output_dir (''a1'' @ ''.txt'')
   \<and> output_dir empty_fs = Folder []
   \<and> map_of ([] :: directory) (''a1'' @ ''.txt'') \<noteq> Some Subdir
   \<and> (\<exists>d'. download_transcript example_os example_get_transcript ''a1'' empty_fs 0
               = ((True, empty_fs\<lparr>output_dir := Folder d'\<rparr>, []), Suc 0)
           \<and> map_of d' (''a1'' @ ''.txt'') = Some (File ''intro\<newline>next''))"
proof -
  note t = fetch_and_clean_text [where get_transcript = example_get_transcript and video_id = "''a1''"
      and w = 0 and d = "[]" and sys = example_os and fs = empty_fs,
      OF example_fetch_a1, unfolded example_joined_a1 example_cleaned_a1]
  have h1: "''intro\<newline>00:00:01,000 --> 00:00:02,500 tail\<newline>next'' \<noteq> []"
    by simp
  have h2: "map_of ([] :: directory) (''a1'' @ ''.txt'') \<noteq> Some Subdir"
    by simp
  from h1 example_join_a1 empty_fs_dir h2
  have h: "''intro\<newline>00:00:01,000 --> 00:00:02,500 tail\<newline>next'' \<noteq> []
      \<and> os_join example_os (''a1'' @ ''.txt'') = In_output_dir (''a1'' @ ''.txt'')
      \<and> output_dir empty_fs = Folder []
      \<and> map_of ([] :: directory) (''a1'' @ ''.txt'') \<noteq> Some Subdir"
    by (intro conjI)
  note t3 = t [THEN conjunct2, THEN conjunct2, THEN mp, OF h]
  from example_fetch_a1 t [THEN conjunct1] t [THEN conjunct2, THEN conjunct1] h1
    example_join_a1 empty_fs_dir h2 t3
  show ?thesis by (intro conjI)
qed

lemma example_fetch_e0: "example_get_transcript ''e0'' 0 = (Inr [], Suc 0)"
  by code_simp

theorem download_transcript_empty_text_witness:
  "example_get_transcript ''e0'' 0 = (Inr [], Suc 0)
   \<and> str_join '' '' (map item_text []) = []
   \<and> download_transcript example_os example_get_transcript ''e0'' example_fs 0 =
       ((False, example_fs, [No_English_transcript ''e0'']), Suc 0)"
proof -
  have j: "str_join '' '' (map item_text []) = []" by simp
  from example_fetch_e0 j download_transcript_empty_text [where get_transcript = example_get_transcript
      and video_id = "''e0''" and w = 0 and fs = example_fs and sys = example_os, OF example_fetch_e0 j]
  show ?thesis by (intro conjI)
qed










lemma example_fs_dir: "output_dir example_fs = Folder example_dir"
  by (simp add: example_fs_def)

lemma example_fs_previous: "outside example_fs ''combined_transcripts.txt'' = Some ''previous run''"
  by (simp add: example_fs_def)

lemma example_combined:
  "combined_text example_os example_dir = ''old\<newline>\<newline>x\<newline>\<newline>new\<newline>\<newline>''"
  by code_simp

lemma example_dir_readable:
  "\<forall>entry\<in>set example_dir. endswith (fst entry) ''.txt'' \<longrightarrow>
      (\<exists>stored t. snd entry = File stored \<and> os_read_text example_os (fst entry) stored = Inr t)"
  by (simp add: example_dir_def example_os_def example_read_def endswith_def)

theorem concatenate_transcripts_combined_witness:
  "output_dir example_fs = Folder example_dir
   \<and> distinct (listdir example_dir)
   \<and> list_all (\<lambda>entry. endswith (fst entry) ''.txt'' \<longrightarrow>
        (\<exists>stored t. snd entry = File stored \<and> os_read_text example_os (fst entry) stored = Inr t))
        example_dir
   \<and> outside example_fs ''combined_transcripts.txt'' = Some ''previous run''
   \<and> (\<exists>fs'. concatenate_transcripts example_os (Outside ''combined_transcripts.txt'') example_fs = Inr fs'
          \<and> stored_at (Outside ''combined_transcripts.txt'') fs'
              = Some ''old\<newline>\<newline>x\<newline>\<newline>new\<newline>\<newline>''
          \<and> (Outside ''combined_transcripts.txt'' = Outside ''combined_transcripts.txt'' \<longrightarrow>
               fs' = example_fs\<lparr>outside := (outside example_fs)(''combined_transcripts.txt'' \<mapsto>
                  ''old\<newline>\<newline>x\<newline>\<newline>new\<newline>\<newline>'')\<rparr>))"
proof -
  have loc: "Outside ''combined_transcripts.txt'' = Outside ''combined_transcripts.txt'' \<or>
      (\<exists>n. Outside ''combined_transcripts.txt'' = In_output_dir n \<and> \<not> endswith n ''.txt''
          \<and> map_of example_dir n \<noteq> Some Subdir)"
    by (rule disjI1) (rule refl)
  note t = concatenate_transcripts_combined
    [OF example_fs_dir example_dir_distinct example_dir_readable loc,
     THEN conjunct1, unfolded example_combined]
  from example_fs_dir example_dir_distinct example_dir_readable [folded list_all_iff]
    example_fs_previous t
  show ?thesis by (intro conjI)
qed

text \<open>
  The statement of C1 without the condition on the final file fails. Here the final
  file is \<open>all.txt\<close> inside the output directory, present with the content \<open>old\<close> when
  \<open>concatenate_transcripts\<close> is called: it is emptied before the directory is read, and
  the combined file ends up holding two newlines, without the text \<open>old\<close>.
\<close>

theorem concatenate_transcripts_final_inside_counterexample:
  "output_dir aliased_fs = Folder [(''all.txt'', File ''old'')]
   \<and> read_entry example_os [(''all.txt'', File ''old'')] ''all.txt'' = Inr ''old''
   \<and> map_sum id (stored_at (In_output_dir ''all.txt''))
        (concatenate_transcripts example_os (In_output_dir ''all.txt'') aliased_fs)
       = Inr (Some ''\<newline>\<newline>'')
   \<and> \<not> sublist ''old'' ''\<newline>\<newline>''"
  by code_simp

lemma example_none:
  "scrapetube_get_channel (example_env unlink_ok) ''youtube.com/@none'' 0 = (Inr [], Suc 0)"
  by (simp add: example_env_def example_get_channel_def)

lemma example_final:
  "os_resolve (system (example_env unlink_ok))
     (if ([]::string) = [] then ''combined_transcripts.txt'' else [] @ ''.txt'')
     = Outside ''combined_transcripts.txt''"
  by code_simp

lemma example_read_back:
  "os_read_text (system (example_env unlink_ok)) ''combined_transcripts.txt'' [] = Inr []"
  by code_simp

lemma example_deletable:
  "\<forall>entry\<in>set example_dir. endswith (fst entry) ''.txt'' \<longrightarrow>
      snd entry \<noteq> Subdir \<and> os_unlink (example_env unlink_ok) (fst entry) = None"
  by code_simp

theorem main_download_empty_channel_witness:
  "''youtube.com/@none'' \<noteq> []
   \<and> scrapetube_get_channel (example_env unlink_ok) ''youtube.com/@none'' 0 = (Inr [], Suc 0)
   \<and> os_read_text (system (example_env unlink_ok)) ''combined_transcripts.txt'' [] = Inr []
   \<and> output_dir example_fs = Folder example_dir
   \<and> outside example_fs ''combined_transcripts.txt'' = Some ''previous run''
   \<and> (\<exists>fs' out. main_download (example_env unlink_ok) ''youtube.com/@none'' [] example_fs 0
                    = (Inr (fs', out), Suc 0)
            \<and> outside fs' ''combined_transcripts.txt'' = Some []
            \<and> stored_at (Outside ''combined_transcripts.txt'') fs' = Some [])"
proof -
  have url: "''youtube.com/@none'' \<noteq> []" by simp
  have dir: "(output_dir example_fs = Missing \<and> os_makedirs (example_env unlink_ok) = None) \<or>
       (\<exists>d. output_dir example_fs = Folder d \<and> distinct (listdir d)
          \<and> (\<forall>entry\<in>set d. endswith (fst entry) ''.txt'' \<longrightarrow>
                 snd entry \<noteq> Subdir \<and> os_unlink (example_env unlink_ok) (fst entry) = None))"
    using example_fs_dir example_dir_distinct example_deletable by (intro disjI2 exI conjI)
  note t = main_download_empty_channel [OF url example_none example_final example_read_back dir,
      THEN conjunct1]
  from url example_none example_read_back example_fs_dir example_fs_previous t
  show ?thesis by (intro conjI)
qed

text \<open>
  The statement of C7 without the condition on the output directory fails. Here the
  scraper lists no video and the deletion of \<open>b.txt\<close> (content \<open>x\<close>) is refused while the
  directory is cleared: the run raises nothing, but the combined file holds \<open>x\<close> and two
  newlines.
\<close>

theorem main_download_stale_file_counterexample:
  "scrapetube_get_channel (example_env unlink_refused) ''youtube.com/@none'' 0 = (Inr [], Suc 0)
   \<and> map_sum id (stored_at (Outside ''combined_transcripts.txt'') \<circ> fst)
        (fst (main_download (example_env unlink_refused) ''youtube.com/@none'' [] example_fs 0))
       = Inr (Some ''x\<newline>\<newline>'')"
  by code_simp

end
